theory Spec2Isabelle
  imports Complex_Main "HOL-Library.Log_Nat"
begin

section \<open>Values exchanged by the video pipeline\<close>

text \<open>
  The development embeds the class \<open>CV2Video\<close> of \<open>tkinter_opencv_video.py\<close>.
  Python exceptions are values of \<open>error\<close>. \<open>AttributeError\<close> is what Python raises
  when a method is called on \<open>None\<close> (the container of a producer-side object, the
  frame of an object that has received none).
\<close>

datatype error = ZeroDivisionError | BrokenPipeError | AttributeError | Cv2Error

text \<open>
  A frame is a raster whose \<open>shape\<close> is \<open>(rows, cols, channels)\<close>: \<open>shape[0]\<close> is the
  height and \<open>shape[1]\<close> the width. The pixel data is opaque.
\<close>

datatype frame = Frame (rows: nat) (cols: nat) (pixels: nat)

datatype source = Filename string | Index int

text \<open>A message on the pipe is a frame, or \<open>None\<close>, sent once when a read fails.\<close>

type_synonym message = "frame option"

text \<open>
  The image handed to the label: the frame it was made from, whether it was mirrored
  by \<open>cv2.flip\<close>, and the size it was resampled to by \<open>cv2.resize\<close>.
\<close>

datatype image = PhotoImage (origin: frame) (mirrored: bool) (dsize: "int \<times> int")

section \<open>Python floats\<close>

text \<open>
  Python's \<open>/\<close> on integers and its mixed integer and float arithmetic produce IEEE 754
  doubles: the exact result rounded to a 53 bit significand, to nearest, ties to even.
  A finite double is represented by the rational it denotes. \<open>float_exponent x\<close> is the
  exponent \<open>e\<close> with \<open>2 ^ e \<le> x < 2 ^ (e + 1)\<close> for positive \<open>x\<close>. The exponent range of
  doubles is not limited here: the model is exact for magnitudes between \<open>2 ^ -1022\<close> and
  \<open>2 ^ 1024\<close>, which contains every quotient and product of pixel counts.
\<close>

definition round_half_even :: "rat \<Rightarrow> int" where
  "round_half_even y =
     (let f = \<lfloor>y\<rfloor>; r = y - of_int f in
      if r < 1 / 2 then f else if 1 / 2 < r then f + 1 else if even f then f else f + 1)"

definition float_exponent :: "rat \<Rightarrow> int" where
  "float_exponent x =
     (if 1 \<le> x then bitlen \<lfloor>x\<rfloor> - 1 else - bitlen (\<lceil>1 / x\<rceil> - 1))"

definition round_double :: "rat \<Rightarrow> rat" where
  "round_double x =
     (if x = 0 then 0
      else let s = 52 - float_exponent \<bar>x\<bar> in
        of_int (round_half_even (x * 2 powi s)) * 2 powi (- s))"

text \<open>\<open>a / b\<close> on two Python ints.\<close>

definition int_truediv :: "int \<Rightarrow> int \<Rightarrow> error + rat" where
  "int_truediv a b =
     (if b = 0 then Inl ZeroDivisionError else Inr (round_double (of_int a / of_int b)))"

text \<open>\<open>n * x\<close> and \<open>n / x\<close> for an int \<open>n\<close> and a float \<open>x\<close>: the int is converted first.\<close>

definition int_mul_float :: "int \<Rightarrow> rat \<Rightarrow> rat" where
  "int_mul_float n x = round_double (round_double (of_int n) * x)"

definition int_div_float :: "int \<Rightarrow> rat \<Rightarrow> error + rat" where
  "int_div_float n x =
     (if x = 0 then Inl ZeroDivisionError
      else Inr (round_double (round_double (of_int n) / x)))"

definition float_add :: "rat \<Rightarrow> rat \<Rightarrow> rat" where
  "float_add x y = round_double (x + y)"

definition float_sub :: "rat \<Rightarrow> rat \<Rightarrow> rat" where
  "float_sub x y = round_double (x - y)"

section \<open>The collaborators: label, capture backend, clock and pipe\<close>

text \<open>
  The tkinter label: its current size, the image it was last configured with and the
  virtual events generated on it.
\<close>

record label =
  winfo_width :: int
  winfo_height :: int
  label_image :: "image option"
  events :: "string list"

text \<open>
  What lies outside the program: the frame a source yields at a position (\<open>None\<close> when
  the read fails), the frame rate the backend reports for a source, the value of the
  \<open>k\<close>-th call of \<open>time.time()\<close> in a producer, and whether the \<open>k\<close>-th \<open>send\<close> of a
  producer finds the pipe broken.
\<close>

record world =
  media :: "source \<Rightarrow> int \<Rightarrow> frame option"
  nominal_fps :: "source \<Rightarrow> rat"
  clock :: "nat \<Rightarrow> rat"
  send_fails :: "nat \<Rightarrow> bool"

text \<open>
  A \<open>cv2.VideoCapture\<close>: what it was opened with, the properties set on it, the position
  of the next frame, and how often it was read and released.
\<close>

record capture =
  cap_source :: source
  cap_api :: int
  cap_width :: "int option"
  cap_height :: "int option"
  cap_pos :: int
  reads :: nat
  releases :: nat

definition capture_read :: "world \<Rightarrow> capture \<Rightarrow> frame option \<times> capture" where
  "capture_read w c =
     (case media w (cap_source c) (cap_pos c) of
        None \<Rightarrow> (None, c\<lparr>reads := reads c + 1\<rparr>)
      | Some f \<Rightarrow> (Some f, c\<lparr>cap_pos := cap_pos c + 1, reads := reads c + 1\<rparr>))"

definition capture_release :: "capture \<Rightarrow> capture" where
  "capture_release c = c\<lparr>releases := releases c + 1\<rparr>"

text \<open>\<open>cv2.resize\<close> rejects a destination size with a component that is not positive.\<close>

definition cv2_resize :: "frame \<Rightarrow> bool \<Rightarrow> int \<times> int \<Rightarrow> error + image" where
  "cv2_resize f m sz =
     (if fst sz \<le> 0 \<or> snd sz \<le> 0 then Inl Cv2Error else Inr (PhotoImage f m sz))"

section \<open>The class \<open>CV2Video\<close>\<close>

text \<open>The constructor arguments, which are also what \<open>__reduce__\<close> returns.\<close>

record ctor_args =
  arg_container :: "label option"
  arg_filename_or_index :: source
  arg_api_preference :: int
  arg_flipped :: bool
  arg_width :: "int option"
  arg_height :: "int option"
  arg_use_fps_delay :: bool
  arg_frame_number :: int

text \<open>
  A \<open>multiprocessing.Process\<close> whose target is the bound method \<open>_collect_frames\<close>: the
  child rebuilds the object from the pickled constructor arguments.
\<close>

datatype process = Process ctor_args

text \<open>
  The fields of an object. \<open>frame_receiver\<close> holds the messages queued in the pipe, oldest
  first; it is \<open>None\<close> in a producer process, as is the sender.
\<close>

record CV2Video =
  container :: "label option"
  filename_or_index :: source
  api_preference :: int
  flipped :: bool
  width :: "int option"
  height :: "int option"
  use_fps_delay :: bool
  frame_number :: int
  frame_collector :: "process option"
  frame :: "frame option"
  image :: "image option"
  image_needs_update :: bool
  configure_bound :: bool
  frame_receiver :: "message list option"

definition reduce :: "CV2Video \<Rightarrow> ctor_args" where
  "reduce self =
     \<lparr>arg_container = None,
      arg_filename_or_index = filename_or_index self,
      arg_api_preference = api_preference self,
      arg_flipped = flipped self,
      arg_width = width self,
      arg_height = height self,
      arg_use_fps_delay = use_fps_delay self,
      arg_frame_number = frame_number self\<rparr>"

definition set_image_dirty :: "CV2Video \<Rightarrow> CV2Video" where
  "set_image_dirty self = self\<lparr>image_needs_update := True\<rparr>"

definition on_frame_received :: "frame \<Rightarrow> CV2Video \<Rightarrow> CV2Video" where
  "on_frame_received f self =
     self\<lparr>frame_number := frame_number self + 1, frame := Some f, image_needs_update := True\<rparr>"

definition create_capture :: "CV2Video \<Rightarrow> capture" where
  "create_capture self =
     \<lparr>cap_source = filename_or_index self,
      cap_api = api_preference self,
      cap_width = width self,
      cap_height = height self,
      cap_pos = (if 0 < frame_number self then frame_number self else 0),
      reads = 0,
      releases = 0\<rparr>"

definition collect_first_frame :: "world \<Rightarrow> CV2Video \<Rightarrow> CV2Video \<times> capture" where
  "collect_first_frame w self =
     (case capture_read w (create_capture self) of
        (None, c) \<Rightarrow> (self, capture_release c)
      | (Some f, c) \<Rightarrow> (set_image_dirty (self\<lparr>frame := Some f\<rparr>), capture_release c))"

text \<open>
  \<open>__init__\<close>. The first argument tells whether the current process is the main process.
  The result holds the capture the constructor used, if it opened one.
\<close>

definition init :: "bool \<Rightarrow> world \<Rightarrow> ctor_args \<Rightarrow> error + (CV2Video \<times> capture option)" where
  "init main_process w a =
     (let self =
        \<lparr>container = arg_container a,
         filename_or_index = arg_filename_or_index a,
         api_preference = arg_api_preference a,
         flipped = arg_flipped a,
         width = arg_width a,
         height = arg_height a,
         use_fps_delay = arg_use_fps_delay a,
         frame_number = arg_frame_number a,
         frame_collector = None,
         frame = None,
         image = None,
         image_needs_update = False,
         configure_bound = False,
         frame_receiver = None\<rparr>
      in
        if main_process then
          (case container self of
             None \<Rightarrow> Inl AttributeError
           | Some c \<Rightarrow>
               (let self1 = self\<lparr>configure_bound := True, frame_receiver := Some []\<rparr> in
                case filename_or_index self1 of
                  Filename s \<Rightarrow>
                    (case collect_first_frame w self1 of (self2, cap) \<Rightarrow> Inr (self2, Some cap))
                | Index i \<Rightarrow> Inr (self1, None)))
        else Inr (self, None))"

subsection \<open>Playback control\<close>

definition event_generate :: "string \<Rightarrow> CV2Video \<Rightarrow> error option \<times> CV2Video" where
  "event_generate sequence self =
     (case container self of
        None \<Rightarrow> (Some AttributeError, self)
      | Some c \<Rightarrow> (None, self\<lparr>container := Some (c\<lparr>events := events c @ [sequence]\<rparr>)\<rparr>))"

definition play :: "CV2Video \<Rightarrow> error option \<times> CV2Video" where
  "play self =
     (case frame_collector self of
        None \<Rightarrow>
          event_generate ''<<PLAY>>'' (self\<lparr>frame_collector := Some (Process (reduce self))\<rparr>)
      | Some p \<Rightarrow> (None, self))"

definition pause :: "CV2Video \<Rightarrow> error option \<times> CV2Video" where
  "pause self =
     (case frame_collector self of
        None \<Rightarrow> (None, self)
      | Some p \<Rightarrow>
          (case event_generate ''<<PAUSE>>'' self of
             (Some e, self1) \<Rightarrow> (Some e, self1)
           | (None, self1) \<Rightarrow> (None, self1\<lparr>frame_collector := None\<rparr>)))"

definition toggle_play_pause :: "CV2Video \<Rightarrow> error option \<times> CV2Video" where
  "toggle_play_pause self =
     (case frame_collector self of None \<Rightarrow> play self | Some p \<Rightarrow> pause self)"

definition reset :: "CV2Video \<Rightarrow> error option \<times> CV2Video" where
  "reset self =
     (case pause self of
        (Some e, self1) \<Rightarrow> (Some e, self1)
      | (None, self1) \<Rightarrow> (None, self1\<lparr>frame_number := 0\<rparr>))"

subsection \<open>Rendering\<close>

definition get_optimal_size :: "CV2Video \<Rightarrow> error + (int \<times> int)" where
  "get_optimal_size self =
     (case container self of
        None \<Rightarrow> Inl AttributeError
      | Some c \<Rightarrow>
     (let max_width = winfo_width c; max_height = winfo_height c in
      case frame self of
        None \<Rightarrow> Inl AttributeError
      | Some f \<Rightarrow>
     (case int_truediv (int (cols f)) (int (rows f)) of
        Inl e \<Rightarrow> Inl e
      | Inr video_aspect_ratio \<Rightarrow>
     (case int_truediv max_width max_height of
        Inl e \<Rightarrow> Inl e
      | Inr target_aspect_ratio \<Rightarrow>
          if video_aspect_ratio = target_aspect_ratio then Inr (max_width, max_height)
          else if video_aspect_ratio < target_aspect_ratio then
            Inr (\<lceil>int_mul_float max_height video_aspect_ratio\<rceil>, max_height)
          else
            (case int_div_float max_width video_aspect_ratio of
               Inl e \<Rightarrow> Inl e
             | Inr q \<Rightarrow> Inr (max_width, \<lceil>q\<rceil>))))))"

definition configure_image :: "CV2Video \<Rightarrow> error option \<times> CV2Video" where
  "configure_image self =
     (case container self of
        None \<Rightarrow> (Some AttributeError, self)
      | Some c \<Rightarrow> (None, self\<lparr>container := Some (c\<lparr>label_image := image self\<rparr>)\<rparr>))"

definition update_image :: "CV2Video \<Rightarrow> error option \<times> CV2Video" where
  "update_image self =
     (let self1 = self\<lparr>image_needs_update := False\<rparr> in
      case frame self1 of
        None \<Rightarrow> configure_image (self1\<lparr>image := None\<rparr>)
      | Some f \<Rightarrow>
          (case get_optimal_size self1 of
             Inl e \<Rightarrow> (Some e, self1)
           | Inr optimal_size \<Rightarrow>
               (case cv2_resize f (flipped self1) optimal_size of
                  Inl e \<Rightarrow> (Some e, self1)
                | Inr img \<Rightarrow> configure_image (self1\<lparr>image := Some img\<rparr>))))"

text \<open>The image the label currently displays.\<close>

definition shown :: "CV2Video \<Rightarrow> image option" where
  "shown self = (case container self of None \<Rightarrow> None | Some c \<Rightarrow> label_image c)"

subsection \<open>The consumer: \<open>update\<close>\<close>

text \<open>
  The \<open>while\<close> loop of \<open>update\<close>: \<open>poll()\<close> holds while the queue is not empty and
  \<open>recv()\<close> takes its oldest message. The loop returns what is left in the pipe, the flag
  \<open>reached_end\<close> and the object.
\<close>

fun drain :: "message list \<Rightarrow> bool \<Rightarrow> CV2Video \<Rightarrow> message list \<times> bool \<times> CV2Video" where
  "drain [] reached_end self = ([], reached_end, self)"
| "drain (Some f # q) reached_end self = drain q reached_end (on_frame_received f self)"
| "drain (None # q) reached_end self = drain q True self"

definition update :: "CV2Video \<Rightarrow> (error + bool) \<times> CV2Video" where
  "update self =
     (case frame_receiver self of
        None \<Rightarrow> (Inl AttributeError, self)
      | Some q \<Rightarrow>
          (case drain q False self of
             (q1, reached_end, self1) \<Rightarrow>
               (let self2 = self1\<lparr>frame_receiver := Some q1\<rparr> in
                if image_needs_update self2 then
                  (case update_image self2 of
                     (Some e, self3) \<Rightarrow> (Inl e, self3)
                   | (None, self3) \<Rightarrow> (Inr (\<not> reached_end), self3))
                else (Inr (\<not> reached_end), self2))))"

subsection \<open>Sequences of operations on a controller\<close>

text \<open>
  The calls a host makes on a controller, together with the two things that happen to
  it from outside: the producer's message arriving in the pipe, and the toolkit
  resizing the label, which runs the callback bound to \<open><Configure>\<close>.
\<close>

datatype operation = Play | Pause | Toggle | Update | Arrive message | Configure int int

definition arrive :: "message \<Rightarrow> CV2Video \<Rightarrow> CV2Video" where
  "arrive m self = self\<lparr>frame_receiver := map_option (\<lambda>q. q @ [m]) (frame_receiver self)\<rparr>"

definition configure :: "int \<Rightarrow> int \<Rightarrow> CV2Video \<Rightarrow> CV2Video" where
  "configure w h self =
     (let self1 =
        self\<lparr>container :=
          map_option (\<lambda>c. c\<lparr>winfo_width := w, winfo_height := h\<rparr>) (container self)\<rparr>
      in if configure_bound self1 then set_image_dirty self1 else self1)"

fun exec_op :: "operation \<Rightarrow> CV2Video \<Rightarrow> error option \<times> CV2Video" where
  "exec_op Play self = play self"
| "exec_op Pause self = pause self"
| "exec_op Toggle self = toggle_play_pause self"
| "exec_op Update self =
     (case update self of (Inl e, self1) \<Rightarrow> (Some e, self1) | (Inr alive, self1) \<Rightarrow> (None, self1))"
| "exec_op (Arrive m) self = (None, arrive m self)"
| "exec_op (Configure w h) self = (None, configure w h self)"

text \<open>A sequence of operations stops at the first exception, as the host's loop would.\<close>

fun run :: "operation list \<Rightarrow> CV2Video \<Rightarrow> error option \<times> CV2Video" where
  "run [] self = (None, self)"
| "run (x # xs) self =
     (case exec_op x self of
        (Some e, self1) \<Rightarrow> (Some e, self1)
      | (None, self1) \<Rightarrow> run xs self1)"

subsection \<open>The producer: \<open>_collect_frames\<close>\<close>

text \<open>
  The local state of a running producer: its capture, the messages the pipe accepted,
  the number of \<open>send\<close> calls and of \<open>time.time()\<close> calls made so far, the pacing
  variables, the durations passed to \<open>time.sleep\<close>, and whether the producer's own end of
  the pipe is closed.
\<close>

record producer =
  p_capture :: capture
  sent :: "message list"
  sends :: nat
  ticks :: nat
  duration_per_frame :: rat
  next_frame_time :: rat
  slept :: "rat list"
  closed :: bool

datatype outcome = Returned | Raised error | Running

definition send :: "world \<Rightarrow> message \<Rightarrow> producer \<Rightarrow> error option \<times> producer" where
  "send w m p =
     (if send_fails w (sends p) then (Some BrokenPipeError, p\<lparr>sends := sends p + 1\<rparr>)
      else (None, p\<lparr>sends := sends p + 1, sent := sent p @ [m]\<rparr>))"

text \<open>The pacing at the end of an iteration of the loop.\<close>

definition pace :: "world \<Rightarrow> bool \<Rightarrow> producer \<Rightarrow> producer" where
  "pace w paced p =
     (if paced then
        (let p1 = p\<lparr>next_frame_time := float_add (next_frame_time p) (duration_per_frame p)\<rparr>;
             duration_to_next_frame = float_sub (next_frame_time p1) (clock w (ticks p1));
             p2 = p1\<lparr>ticks := ticks p1 + 1\<rparr>
         in if 0 < duration_to_next_frame
            then p2\<lparr>slept := slept p2 @ [duration_to_next_frame]\<rparr> else p2)
      else p)"

text \<open>
  The \<open>while\<close> loop of \<open>_collect_frames\<close>. A camera never stops delivering frames, so the
  loop need not end: the first argument bounds the number of iterations that are
  followed, and \<open>Running\<close> is the outcome of a loop that has not ended within them.
\<close>

fun collect_loop :: "nat \<Rightarrow> world \<Rightarrow> bool \<Rightarrow> producer \<Rightarrow> outcome \<times> producer" where
  "collect_loop 0 w paced p = (if closed p then (Returned, p) else (Running, p))"
| "collect_loop (Suc n) w paced p =
     (if closed p then (Returned, p)
      else
        (case capture_read w (p_capture p) of
           (Some f, c) \<Rightarrow>
             (case send w (Some f) (p\<lparr>p_capture := c\<rparr>) of
                (Some e, p1) \<Rightarrow> (Raised e, p1)
              | (None, p1) \<Rightarrow> collect_loop n w paced (pace w paced p1))
         | (None, c) \<Rightarrow>
             (case send w None (p\<lparr>p_capture := c\<rparr>) of
                (Some e, p1) \<Rightarrow> (Raised e, p1)
              | (None, p1) \<Rightarrow> (Returned, p1))))"

text \<open>The state of the producer when it enters the loop.\<close>

definition start_producer :: "world \<Rightarrow> CV2Video \<Rightarrow> producer" where
  "start_producer w self =
     (let p =
        \<lparr>p_capture = create_capture self, sent = [], sends = 0, ticks = 0,
         duration_per_frame = 0, next_frame_time = 0, slept = [], closed = False\<rparr>
      in
        if use_fps_delay self then
          (let fps = nominal_fps w (filename_or_index self) in
           p\<lparr>duration_per_frame := round_double (1 / (if fps = 0 then 1 else fps)),
             next_frame_time := clock w 0,
             ticks := 1\<rparr>)
        else p)"

text \<open>\<open>_collect_frames\<close>: the loop, then the \<open>finally\<close> clause, which releases the capture.\<close>

definition collect_frames :: "nat \<Rightarrow> world \<Rightarrow> CV2Video \<Rightarrow> outcome \<times> producer" where
  "collect_frames n w self =
     (case collect_loop n w (use_fps_delay self) (start_producer w self) of
        (Running, p) \<Rightarrow> (Running, p)
      | (out, p) \<Rightarrow> (out, p\<lparr>p_capture := capture_release (p_capture p)\<rparr>))"

text \<open>What the process started by \<open>play\<close> runs: the child's constructor, then the loop.\<close>

definition run_process :: "nat \<Rightarrow> world \<Rightarrow> process \<Rightarrow> error + (outcome \<times> producer)" where
  "run_process n w pr =
     (case pr of Process a \<Rightarrow>
        (case init False w a of
           Inl e \<Rightarrow> Inl e
         | Inr (child, c) \<Rightarrow> Inr (collect_frames n w child)))"

subsection \<open>A concrete scene\<close>

text \<open>
  A label of 640 by 480 pixels, a file of ten frames of 4 by 3 pixels that reports 25
  frames per second, a clock that advances by a hundredth of a second per reading, and
  a controller in the main process that has neither read nor received a frame.
\<close>

definition demo_label :: label where
  "demo_label = \<lparr>winfo_width = 640, winfo_height = 480, label_image = None, events = []\<rparr>"

definition demo_world :: world where
  "demo_world =
     \<lparr>media = (\<lambda>s i. if 0 \<le> i \<and> i < 10 then Some (Frame 3 4 (nat i)) else None),
      nominal_fps = (\<lambda>s. 25),
      clock = (\<lambda>k. of_nat k / 100),
      send_fails = (\<lambda>k. False)\<rparr>"

definition demo_video :: CV2Video where
  "demo_video =
     \<lparr>container = Some demo_label,
      filename_or_index = Filename ''video.avi'',
      api_preference = 0,
      flipped = False,
      width = None,
      height = None,
      use_fps_delay = True,
      frame_number = 0,
      frame_collector = None,
      frame = None,
      image = None,
      image_needs_update = False,
      configure_bound = True,
      frame_receiver = Some []\<rparr>"

text \<open>The arguments a host passes to build a controller for that file.\<close>

definition demo_args :: ctor_args where
  "demo_args =
     \<lparr>arg_container = Some demo_label,
      arg_filename_or_index = Filename ''video.avi'',
      arg_api_preference = 0,
      arg_flipped = False,
      arg_width = None,
      arg_height = None,
      arg_use_fps_delay = True,
      arg_frame_number = 0\<rparr>"

section \<open>Properties of the consumer\<close>

subsection \<open>The drain loop\<close>

lemma drain_queue: "fst (drain q r self) = []"
  by (induction q r self rule: drain.induct) simp_all

lemma drain_reached_end: "fst (snd (drain q r self)) = (r \<or> None \<in> set q)"
  by (induction q r self rule: drain.induct) auto

lemma drain_frame_number:
  "frame_number (snd (snd (drain q r self))) =
     frame_number self + int (length (filter (\<lambda>m. m \<noteq> None) q))"
  by (induction q r self rule: drain.induct) (simp_all add: on_frame_received_def)

lemma drain_frame:
  "frame (snd (snd (drain (map Some fs) r self))) =
     (if fs = [] then frame self else Some (last fs))"
  by (induction fs arbitrary: self) (simp_all add: on_frame_received_def)

lemma filter_map_Some: "filter (\<lambda>m. m \<noteq> None) (map Some fs) = map Some fs"
  by (induction fs) simp_all

lemma configure_image_fixed:
  "frame_number (snd (configure_image self)) = frame_number self"
  "frame (snd (configure_image self)) = frame self"
  "frame_receiver (snd (configure_image self)) = frame_receiver self"
  by (simp_all add: configure_image_def split: option.splits)

lemma update_image_fixed:
  "frame_number (snd (update_image self)) = frame_number self"
  "frame (snd (update_image self)) = frame self"
  "frame_receiver (snd (update_image self)) = frame_receiver self"
  by (simp_all add: update_image_def Let_def configure_image_fixed
      split: option.splits sum.splits)

lemma update_state:
  assumes "frame_receiver self = Some q"
  shows "frame_number (snd (update self)) = frame_number (snd (snd (drain q False self)))"
    and "frame (snd (update self)) = frame (snd (snd (drain q False self)))"
    and "frame_receiver (snd (update self)) = Some (fst (drain q False self))"
  using assms
  by (simp_all add: update_def Let_def split_beta update_image_fixed split: option.splits)

lemma update_result:
  assumes "frame_receiver self = Some q" and "fst (update self) = Inr b"
  shows "b = (\<not> fst (snd (drain q False self)))"
  using assms
  by (simp add: update_def Let_def split_beta split: option.splits if_splits)

lemma update_frame_number:
  "frame_number self \<le> frame_number (snd (update self))"
proof (cases "frame_receiver self")
  case None
  then show ?thesis by (simp add: update_def)
next
  case (Some q)
  then show ?thesis by (simp add: update_state(1) drain_frame_number)
qed

subsection \<open>One call of \<open>update\<close> on a burst of frames\<close>

text \<open>
  C4. When the pipe holds \<open>M\<close> frames and no end marker, one call of \<open>update\<close> takes
  all of them: \<open>frame_number\<close> grows by exactly \<open>M\<close>, the stored frame is the last one
  queued (the stored frame is kept when \<open>M = 0\<close>), the pipe is empty afterwards, and the
  call does not report the end of the stream.
\<close>

theorem update_drains_burst:
  assumes "frame_receiver self = Some (map Some fs)"
  shows "frame_number (snd (update self)) = frame_number self + int (length fs)
    \<and> frame (snd (update self)) = (if fs = [] then frame self else Some (last fs))
    \<and> frame_receiver (snd (update self)) = Some []
    \<and> fst (update self) \<noteq> Inr False"
proof -
  have n: "frame_number (snd (update self)) = frame_number self + int (length fs)"
    by (simp add: update_state(1) [OF assms] drain_frame_number filter_map_Some)
  have f: "frame (snd (update self)) = (if fs = [] then frame self else Some (last fs))"
    by (simp add: update_state(2) [OF assms] drain_frame)
  have q: "frame_receiver (snd (update self)) = Some []"
    by (simp add: update_state(3) [OF assms] drain_queue)
  have r: "fst (update self) \<noteq> Inr False"
  proof
    assume "fst (update self) = Inr False"
    from update_result [OF assms this] show False
      by (auto simp add: drain_reached_end)
  qed
  from n f q r show ?thesis by simp
qed

theorem update_drains_burst_witness:
  "frame_receiver (demo_video\<lparr>frame_receiver := Some (map Some [Frame 3 4 0, Frame 3 4 1])\<rparr>)
     = Some (map Some [Frame 3 4 0, Frame 3 4 1])
   \<and> frame_number
        (snd (update (demo_video\<lparr>frame_receiver := Some (map Some [Frame 3 4 0, Frame 3 4 1])\<rparr>)))
     = 2
   \<and> frame
        (snd (update (demo_video\<lparr>frame_receiver := Some (map Some [Frame 3 4 0, Frame 3 4 1])\<rparr>)))
     = Some (Frame 3 4 1)"
  using update_drains_burst
    [of "demo_video\<lparr>frame_receiver := Some (map Some [Frame 3 4 0, Frame 3 4 1])\<rparr>"
        "[Frame 3 4 0, Frame 3 4 1]"]
  by (simp add: demo_video_def)

subsection \<open>The end marker does not stop the loop\<close>

text \<open>
  C3, as stated, fails: the loop of \<open>update\<close> has no \<open>break\<close>, so a frame queued behind
  the end marker is received and processed by the same call.
\<close>

theorem update_stops_at_marker_counterexample:
  "frame_receiver
     (snd (update (demo_video\<lparr>frame_receiver := Some [None, Some (Frame 3 4 7)]\<rparr>))) = Some []
   \<and> frame
     (snd (update (demo_video\<lparr>frame_receiver := Some [None, Some (Frame 3 4 7)]\<rparr>)))
       = Some (Frame 3 4 7)
   \<and> frame_number
     (snd (update (demo_video\<lparr>frame_receiver := Some [None, Some (Frame 3 4 7)]\<rparr>))) = 1"
  by code_simp

text \<open>
  C3, amended. On the end marker \<open>update\<close> records the end of the stream and goes on
  draining: whatever the queue holds, the call empties it, counts every frame in it,
  also those behind a marker, and does not report a live stream when a marker was in it.
\<close>

theorem update_drains_past_marker:
  assumes "frame_receiver self = Some q"
  shows "frame_receiver (snd (update self)) = Some []
    \<and> frame_number (snd (update self)) =
        frame_number self + int (length (filter (\<lambda>m. m \<noteq> None) q))
    \<and> (None \<in> set q \<longrightarrow> fst (update self) \<noteq> Inr True)"
proof -
  have q: "frame_receiver (snd (update self)) = Some []"
    by (simp add: update_state(3) [OF assms] drain_queue)
  have n: "frame_number (snd (update self)) =
      frame_number self + int (length (filter (\<lambda>m. m \<noteq> None) q))"
    by (simp add: update_state(1) [OF assms] drain_frame_number)
  have r: "fst (update self) \<noteq> Inr True" if "None \<in> set q"
  proof
    assume "fst (update self) = Inr True"
    from update_result [OF assms this] that show False
      by (simp add: drain_reached_end)
  qed
  from q n r show ?thesis by simp
qed

theorem update_drains_past_marker_witness:
  "frame_receiver (demo_video\<lparr>frame_receiver := Some [None, Some (Frame 3 4 7)]\<rparr>)
     = Some [None, Some (Frame 3 4 7)]
   \<and> None \<in> set [None, Some (Frame 3 4 7)]
   \<and> frame_number
       (snd (update (demo_video\<lparr>frame_receiver := Some [None, Some (Frame 3 4 7)]\<rparr>))) = 1
   \<and> fst (update (demo_video\<lparr>frame_receiver := Some [None, Some (Frame 3 4 7)]\<rparr>))
       \<noteq> Inr True"
  using update_drains_past_marker
    [of "demo_video\<lparr>frame_receiver := Some [None, Some (Frame 3 4 7)]\<rparr>"
        "[None, Some (Frame 3 4 7)]"]
  by (simp add: demo_video_def)

subsection \<open>The end of the stream is not remembered\<close>

text \<open>
  C2, as stated, fails: \<open>reached_end\<close> is a local variable of \<open>update\<close>. The first call
  below receives the end marker and returns \<open>False\<close>; the next call finds the pipe empty
  and returns \<open>True\<close>.
\<close>

theorem update_end_is_final_counterexample:
  "fst (update (demo_video\<lparr>frame_receiver := Some [None]\<rparr>)) = Inr False
   \<and> fst (update (snd (update (demo_video\<lparr>frame_receiver := Some [None]\<rparr>)))) = Inr True"
  by (simp add: update_def demo_video_def)

text \<open>
  C2, amended. A call of \<open>update\<close> that returns, returns \<open>False\<close> exactly when the end
  marker is among the messages this call drains; the call that follows it with no new
  message in the pipe does not return \<open>False\<close>.
\<close>

theorem update_alive_iff_no_marker:
  assumes "frame_receiver self = Some q"
  shows "(fst (update self) = Inr alive \<longrightarrow> alive = (None \<notin> set q))
    \<and> fst (update (snd (update self))) \<noteq> Inr False"
proof -
  have a: "alive = (None \<notin> set q)" if "fst (update self) = Inr alive"
    using update_result [OF assms that] by (simp add: drain_reached_end)
  have e: "frame_receiver (snd (update self)) = Some []"
    by (simp add: update_state(3) [OF assms] drain_queue)
  have "fst (update (snd (update self))) \<noteq> Inr False"
  proof
    assume "fst (update (snd (update self))) = Inr False"
    from update_result [OF e this] show False by simp
  qed
  with a show ?thesis by simp
qed

theorem update_alive_iff_no_marker_witness:
  "frame_receiver (demo_video\<lparr>frame_receiver := Some [None]\<rparr>) = Some [None]
   \<and> fst (update (demo_video\<lparr>frame_receiver := Some [None]\<rparr>)) = Inr False
   \<and> False = (None \<notin> set [None :: message])
   \<and> fst (update (snd (update (demo_video\<lparr>frame_receiver := Some [None]\<rparr>)))) \<noteq> Inr False"
  using update_alive_iff_no_marker
    [of "demo_video\<lparr>frame_receiver := Some [None]\<rparr>" "[None]" False]
  by (simp add: update_def demo_video_def)

section \<open>Properties of the playback control\<close>

lemma event_generate_frame_number:
  "frame_number (snd (event_generate s self)) = frame_number self"
  by (simp add: event_generate_def split: option.splits)

lemma play_frame_number: "frame_number (snd (play self)) = frame_number self"
  by (simp add: play_def event_generate_frame_number split: option.splits)

lemma pause_frame_number: "frame_number (snd (pause self)) = frame_number self"
  by (simp add: pause_def event_generate_def split: option.splits)

lemma pause_succeeds: "container self \<noteq> None \<Longrightarrow> fst (pause self) = None"
  by (auto simp add: pause_def event_generate_def split: option.splits)

lemma exec_op_frame_number: "frame_number self \<le> frame_number (snd (exec_op x self))"
proof (cases x)
  case Update
  have "frame_number (snd (exec_op Update self)) = frame_number (snd (update self))"
    by (simp add: split_beta split: sum.splits)
  with Update show ?thesis by (simp only: update_frame_number)
qed (simp_all add: play_frame_number pause_frame_number toggle_play_pause_def
    arrive_def configure_def set_image_dirty_def Let_def split: option.splits)

lemma run_frame_number: "frame_number self \<le> frame_number (snd (run xs self))"
proof (induction xs arbitrary: self)
  case Nil
  show ?case by simp
next
  case (Cons x xs)
  obtain r self1 where s: "exec_op x self = (r, self1)"
    by (cases "exec_op x self")
  have "frame_number self \<le> frame_number self1"
    using exec_op_frame_number [of self x] s by simp
  moreover have "frame_number self1 \<le> frame_number (snd (run xs self1))"
    by (rule Cons.IH)
  ultimately show ?case using s by (cases r) simp_all
qed

text \<open>
  C8. No sequence of \<open>play\<close>, \<open>pause\<close>, \<open>toggle_play_pause\<close> and \<open>update\<close> calls,
  interleaved in any way with arriving messages and resizes of the label, lowers
  \<open>frame_number\<close>; \<open>reset\<close> on a controller (an object with a container) returns
  normally and leaves \<open>frame_number\<close> at \<open>0\<close>.
\<close>

theorem frame_number_monotonic:
  "frame_number self \<le> frame_number (snd (run xs self))
   \<and> (container self \<noteq> None \<longrightarrow>
        fst (reset self) = None \<and> frame_number (snd (reset self)) = 0)"
proof -
  have "fst (reset self) = None \<and> frame_number (snd (reset self)) = 0"
    if "container self \<noteq> None"
    using pause_succeeds [OF that] by (cases "pause self") (simp add: reset_def)
  then show ?thesis using run_frame_number by simp
qed

theorem frame_number_monotonic_witness:
  "container (demo_video\<lparr>frame_number := 7\<rparr>) \<noteq> None
   \<and> 7 \<le> frame_number
       (snd (run [Play, Arrive (Some (Frame 3 4 7)), Update, Pause, Toggle]
               (demo_video\<lparr>frame_number := 7\<rparr>)))
   \<and> fst (reset (demo_video\<lparr>frame_number := 7\<rparr>)) = None
   \<and> frame_number (snd (reset (demo_video\<lparr>frame_number := 7\<rparr>))) = 0"
  using frame_number_monotonic
    [of "demo_video\<lparr>frame_number := 7\<rparr>"
        "[Play, Arrive (Some (Frame 3 4 7)), Update, Pause, Toggle]"]
  by (simp add: demo_video_def)

text \<open>The object a producer process rebuilds from what \<open>__reduce__\<close> returns.\<close>

lemma init_child:
  "init False w (reduce self) =
     Inr (\<lparr>container = None,
         filename_or_index = filename_or_index self,
         api_preference = api_preference self,
         flipped = flipped self,
         width = width self,
         height = height self,
         use_fps_delay = use_fps_delay self,
         frame_number = frame_number self,
         frame_collector = None,
         frame = None,
         image = None,
         image_needs_update = False,
         configure_bound = False,
         frame_receiver = None\<rparr>, None)"
  by (simp add: init_def reduce_def)

section \<open>Properties of the producer\<close>

subsection \<open>Fields the loop leaves alone\<close>

lemma pace_fixed:
  "p_capture (pace w paced p) = p_capture p"
  "sends (pace w paced p) = sends p"
  "sent (pace w paced p) = sent p"
  "closed (pace w paced p) = closed p"
  by (simp_all add: pace_def Let_def)

lemma start_producer_fields:
  "slept (start_producer w self) = []"
  "sends (start_producer w self) = 0"
  "sent (start_producer w self) = []"
  "closed (start_producer w self) = False"
  "p_capture (start_producer w self) = create_capture self"
  by (simp_all add: start_producer_def Let_def)

lemma collect_loop_first:
  assumes "\<not> closed p" and "\<not> send_fails w (sends p)"
  shows "sent (snd (collect_loop (Suc 0) w paced p)) =
     sent p @ [media w (cap_source (p_capture p)) (cap_pos (p_capture p))]"
  using assms
  by (simp add: capture_read_def send_def pace_fixed split: option.splits)

lemma capture_read_fields:
  "cap_source (snd (capture_read w c)) = cap_source c"
  "releases (snd (capture_read w c)) = releases c"
  by (simp_all add: capture_read_def split: option.splits)

lemma collect_loop_step:
  assumes "\<not> closed p"
    and "media w (cap_source (p_capture p)) (cap_pos (p_capture p)) = Some f"
    and "\<not> send_fails w (sends p)"
  shows "collect_loop (Suc m) w paced p =
     collect_loop m w paced
       (pace w paced
         (p\<lparr>p_capture := (p_capture p)\<lparr>cap_pos := cap_pos (p_capture p) + 1,
                                        reads := reads (p_capture p) + 1\<rparr>,
            sends := sends p + 1, sent := sent p @ [Some f]\<rparr>))"
  using assms by (simp add: capture_read_def send_def)

subsection \<open>Resuming at the current frame\<close>

text \<open>
  C7. A controller without a producer whose \<open>frame_number\<close> is \<open>N > 0\<close>: \<open>play\<close> starts
  a process that carries \<open>N\<close> in its constructor arguments; the object the child
  builds from them has \<open>frame_number = N\<close>, the capture it creates is positioned at
  \<open>N\<close>, so its first read yields the frame of the source at position \<open>N\<close>, and that
  frame (or the end marker, if there is none) is the first message the process sends.
\<close>

theorem play_resumes_at_frame_number:
  assumes "frame_collector self = None" and "0 < frame_number self"
  shows "frame_collector (snd (play self)) = Some (Process (reduce self))
    \<and> arg_frame_number (reduce self) = frame_number self
    \<and> (\<exists>child. init False w (reduce self) = Inr (child, None)
          \<and> frame_number child = frame_number self
          \<and> cap_pos (create_capture child) = frame_number self
          \<and> fst (capture_read w (p_capture (start_producer w child))) =
              media w (filename_or_index self) (frame_number self))
    \<and> (\<not> send_fails w 0 \<longrightarrow>
          (\<exists>out p. run_process 1 w (Process (reduce self)) = Inr (out, p)
             \<and> sent p = [media w (filename_or_index self) (frame_number self)]))"
proof -
  have a: "frame_collector (snd (play self)) = Some (Process (reduce self))"
    using assms(1) by (simp add: play_def event_generate_def split: option.splits)
  have b: "arg_frame_number (reduce self) = frame_number self"
    by (simp add: reduce_def)
  obtain child where child: "init False w (reduce self) = Inr (child, None)"
    and cf: "frame_number child = frame_number self"
    and cs: "filename_or_index child = filename_or_index self"
    by (simp add: init_child)
  have pos: "cap_pos (create_capture child) = frame_number self"
    and src: "cap_source (create_capture child) = filename_or_index self"
    using assms(2) cf cs by (simp_all add: create_capture_def)
  have rd: "fst (capture_read w (p_capture (start_producer w child))) =
      media w (filename_or_index self) (frame_number self)"
    by (simp add: start_producer_fields capture_read_def pos src split: option.splits)
  have run: "\<exists>out p. run_process 1 w (Process (reduce self)) = Inr (out, p)
      \<and> sent p = [media w (filename_or_index self) (frame_number self)]"
    if ok: "\<not> send_fails w 0"
  proof -
    have "sent (snd (collect_loop (Suc 0) w (use_fps_delay child) (start_producer w child))) =
        sent (start_producer w child) @
          [media w (cap_source (p_capture (start_producer w child)))
             (cap_pos (p_capture (start_producer w child)))]"
      using ok by (intro collect_loop_first) (simp_all add: start_producer_fields)
    then have "sent (snd (collect_frames 1 w child)) =
        [media w (filename_or_index self) (frame_number self)]"
      by (simp add: collect_frames_def split_beta start_producer_fields pos src
          del: collect_loop.simps split: outcome.splits)
    then show ?thesis
      by (cases "collect_frames 1 w child") (simp add: run_process_def child)
  qed
  from a b child cf pos rd run show ?thesis by blast
qed

theorem play_resumes_at_frame_number_witness:
  "frame_collector (demo_video\<lparr>frame_number := 7\<rparr>) = None
  \<and> (0::int) < frame_number (demo_video\<lparr>frame_number := 7\<rparr>)
  \<and> \<not> send_fails demo_world 0
  \<and> (\<exists>out p. run_process 1 demo_world (Process (reduce (demo_video\<lparr>frame_number := 7\<rparr>))) = Inr (out, p)
        \<and> sent p = [Some (Frame 3 4 7)])"
  using play_resumes_at_frame_number [of "demo_video\<lparr>frame_number := 7\<rparr>" demo_world]
  by (simp add: demo_video_def demo_world_def)

subsection \<open>Signs of rounded values\<close>

lemma round_half_even_ge: "1 \<le> y \<Longrightarrow> 1 \<le> round_half_even y"
proof -
  assume "1 \<le> y"
  then have "1 \<le> \<lfloor>y\<rfloor>" by (simp add: le_floor_iff)
  then show ?thesis by (simp add: round_half_even_def Let_def)
qed

lemma round_half_even_nonneg: "0 \<le> y \<Longrightarrow> 0 \<le> round_half_even y"
proof -
  assume "0 \<le> y"
  then have "0 \<le> \<lfloor>y\<rfloor>" by simp
  then show ?thesis by (simp add: round_half_even_def Let_def)
qed

lemma round_half_even_nonpos: "y \<le> 0 \<Longrightarrow> round_half_even y \<le> 0"
proof (cases "y = 0")
  case True
  then show ?thesis by (simp add: round_half_even_def)
next
  case False
  assume "y \<le> 0"
  with False have "y < 0" by simp
  then have "\<lfloor>y\<rfloor> < 0" by (simp add: floor_less_iff)
  then show ?thesis by (simp add: round_half_even_def Let_def)
qed

lemma two_powi_pos: "0 < (2::rat) powi k"
  by (simp add: power_int_def)

text \<open>\<open>float_exponent\<close> is the binary exponent: \<open>2 ^ e \<le> x < 2 ^ (e + 1)\<close>.\<close>

lemma float_exponent_lower:
  assumes "0 < x"
  shows "2 powi (float_exponent x) \<le> x"
proof (cases "1 \<le> x")
  case True
  then have n: "0 < \<lfloor>x\<rfloor>" by (simp add: less_floor_iff)
  from bitlen_bounds [OF n] have b: "2 ^ nat (bitlen \<lfloor>x\<rfloor> - 1) \<le> \<lfloor>x\<rfloor>" by simp
  have k: "0 \<le> bitlen \<lfloor>x\<rfloor> - 1" using n by (simp add: bitlen_alt_def)
  have "(2::rat) powi (bitlen \<lfloor>x\<rfloor> - 1) = 2 ^ nat (bitlen \<lfloor>x\<rfloor> - 1)"
    using k by (simp add: power_int_def)
  also have "\<dots> = of_int (2 ^ nat (bitlen \<lfloor>x\<rfloor> - 1))" by simp
  also have "\<dots> \<le> of_int \<lfloor>x\<rfloor>" using b by (simp only: of_int_le_iff)
  also have "\<dots> \<le> x" by simp
  finally show ?thesis using True by (simp add: float_exponent_def)
next
  case False
  then have x1: "x < 1" by simp
  then have "1 < 1 / x" using assms by simp
  then have c: "1 < \<lceil>1 / x\<rceil>" by (simp add: less_ceiling_iff)
  define m where "m = \<lceil>1 / x\<rceil> - 1"
  have m: "0 < m" using c by (simp add: m_def)
  from bitlen_bounds [OF m] have "m < 2 ^ nat (bitlen m)" by simp
  then have "\<lceil>1 / x\<rceil> \<le> 2 ^ nat (bitlen m)" by (simp add: m_def)
  then have "(of_int \<lceil>1 / x\<rceil> :: rat) \<le> of_int (2 ^ nat (bitlen m))"
    by (simp only: of_int_le_iff)
  then have "(of_int \<lceil>1 / x\<rceil> :: rat) \<le> 2 ^ nat (bitlen m)" by simp
  with le_of_int_ceiling [of "1 / x"] have "1 / x \<le> 2 ^ nat (bitlen m)"
    by (rule order_trans)
  then have "1 \<le> 2 ^ nat (bitlen m) * x"
    using assms by (simp add: field_simps)
  then have "1 / 2 ^ nat (bitlen m) \<le> x"
    by (simp add: field_simps)
  moreover have "(2::rat) powi (- bitlen m) = 1 / 2 ^ nat (bitlen m)"
    using bitlen_nonneg [of m] by (simp add: power_int_def field_simps)
  ultimately show ?thesis using False by (simp add: float_exponent_def m_def)
qed

lemma float_exponent_upper:
  assumes "0 < x"
  shows "x < 2 powi (float_exponent x + 1)"
proof (cases "1 \<le> x")
  case True
  then have n: "0 < \<lfloor>x\<rfloor>" by (simp add: less_floor_iff)
  from bitlen_bounds [OF n] have b: "\<lfloor>x\<rfloor> < 2 ^ nat (bitlen \<lfloor>x\<rfloor>)" by simp
  then have "\<lfloor>x\<rfloor> + 1 \<le> 2 ^ nat (bitlen \<lfloor>x\<rfloor>)" by simp
  then have "(of_int (\<lfloor>x\<rfloor> + 1) :: rat) \<le> of_int (2 ^ nat (bitlen \<lfloor>x\<rfloor>))"
    by (simp only: of_int_le_iff)
  then have "(of_int (\<lfloor>x\<rfloor> + 1) :: rat) \<le> 2 ^ nat (bitlen \<lfloor>x\<rfloor>)" by simp
  moreover have "x < of_int (\<lfloor>x\<rfloor> + 1)" by linarith
  ultimately have "x < 2 ^ nat (bitlen \<lfloor>x\<rfloor>)" by (rule less_le_trans [rotated])
  moreover have "(2::rat) powi (bitlen \<lfloor>x\<rfloor>) = 2 ^ nat (bitlen \<lfloor>x\<rfloor>)"
    using bitlen_nonneg [of "\<lfloor>x\<rfloor>"] by (simp add: power_int_def)
  ultimately show ?thesis using True by (simp add: float_exponent_def)
next
  case False
  then have x1: "x < 1" by simp
  then have "1 < 1 / x" using assms by simp
  then have c: "1 < \<lceil>1 / x\<rceil>" by (simp add: less_ceiling_iff)
  define m where "m = \<lceil>1 / x\<rceil> - 1"
  have m: "0 < m" using c by (simp add: m_def)
  have k: "1 \<le> bitlen m" using m by (simp add: bitlen_alt_def)
  from bitlen_bounds [OF m] have "2 ^ nat (bitlen m - 1) \<le> m" by simp
  then have "(of_int (2 ^ nat (bitlen m - 1)) :: rat) \<le> of_int m"
    by (simp only: of_int_le_iff)
  then have "(2::rat) ^ nat (bitlen m - 1) \<le> of_int m" by simp
  moreover have "of_int m < 1 / x" unfolding m_def by linarith
  ultimately have "2 ^ nat (bitlen m - 1) < 1 / x" by (rule le_less_trans)
  then have "x * 2 ^ nat (bitlen m - 1) < 1" using assms by (simp add: field_simps)
  then have "x < 1 / 2 ^ nat (bitlen m - 1)" by (simp add: field_simps)
  moreover have "(2::rat) powi (- bitlen m + 1) = 1 / 2 ^ nat (bitlen m - 1)"
  proof -
    have "- bitlen m + 1 = - (bitlen m - 1)" by simp
    then have "(2::rat) powi (- bitlen m + 1) = 2 powi (- (bitlen m - 1))" by simp
    also have "\<dots> = inverse (2 powi (bitlen m - 1))" by (rule power_int_minus)
    also have "\<dots> = 1 / 2 ^ nat (bitlen m - 1)"
      using k by (simp add: power_int_def field_simps)
    finally show ?thesis .
  qed
  ultimately show ?thesis using False by (simp add: float_exponent_def m_def)
qed

lemma round_double_pos:
  assumes "0 < x"
  shows "0 < round_double x"
proof -
  define s where "s = 52 - float_exponent x"
  have "2 powi float_exponent x * 2 powi s \<le> x * 2 powi s"
    using float_exponent_lower [OF assms] two_powi_pos [of s]
    by (simp only: mult_le_cancel_right_pos)
  moreover have "(2::rat) powi float_exponent x * 2 powi s = 2 powi 52"
    by (simp add: s_def power_int_add [symmetric])
  moreover have "(1::rat) \<le> 2 powi 52" by (simp add: power_int_def)
  ultimately have "1 \<le> x * 2 powi s" by simp
  then have "1 \<le> round_half_even (x * 2 powi s)" by (rule round_half_even_ge)
  then have "0 < (of_int (round_half_even (x * 2 powi s)) :: rat)" by simp
  then have "0 < of_int (round_half_even (x * 2 powi s)) * (2::rat) powi (- s)"
    using two_powi_pos [of "- s"] by (simp only: mult_pos_pos)
  then show ?thesis using assms by (simp add: round_double_def Let_def s_def)
qed


lemma round_double_nonpos:
  assumes "x \<le> 0"
  shows "round_double x \<le> 0"
proof (cases "x = 0")
  case True
  then show ?thesis by (simp add: round_double_def)
next
  case False
  define s where "s = 52 - float_exponent \<bar>x\<bar>"
  have "x * 2 powi s \<le> 0" using assms two_powi_pos [of s] by (simp add: mult_le_0_iff less_imp_le)
  then have "round_half_even (x * 2 powi s) \<le> 0" by (rule round_half_even_nonpos)
  then have "(of_int (round_half_even (x * 2 powi s)) :: rat) \<le> 0" by simp
  then have "of_int (round_half_even (x * 2 powi s)) * (2::rat) powi (- s) \<le> 0"
    using two_powi_pos [of "- s"] by (simp add: mult_le_0_iff less_imp_le)
  then show ?thesis using False by (simp add: round_double_def Let_def s_def)
qed

lemma round_double_one: "round_double 1 = 1"
  by code_simp

subsection \<open>Rounding error\<close>

text \<open>
  Rounding moves a value by at most \<open>2 ^ -53\<close> of its size, and leaves an integer below
  \<open>2 ^ 53\<close> as it is. This is all the proofs below use of \<open>round_double\<close>. The
  lemmas after it bound the rounded product and quotient of Python, and show that
  the comparison of two rounded ratios of pixel counts is the comparison of the ratios.
\<close>

lemma round_half_even_error: "\<bar>of_int (round_half_even y) - y\<bar> \<le> 1 / 2"
proof -
  have "of_int \<lfloor>y\<rfloor> \<le> y" "y < of_int \<lfloor>y\<rfloor> + 1" by linarith+
  then show ?thesis
    by (auto simp add: round_half_even_def Let_def abs_le_iff)
qed

lemma round_double_error: "\<bar>round_double x - x\<bar> \<le> \<bar>x\<bar> / 2 ^ 53"
proof (cases "x = 0")
  case True
  then show ?thesis by (simp add: round_double_def)
next
  case False
  define e where "e = float_exponent \<bar>x\<bar>"
  define s where "s = 52 - e"
  define y where "y = x * 2 powi s"
  have pos: "0 < \<bar>x\<bar>" using False by simp
  have low: "2 powi e \<le> \<bar>x\<bar>" unfolding e_def by (rule float_exponent_lower [OF pos])
  have rd: "round_double x = of_int (round_half_even y) * 2 powi (- s)"
    using False by (simp add: round_double_def Let_def s_def e_def y_def)
  have inv: "(2::rat) powi s * 2 powi (- s) = 1"
    by (simp add: power_int_add [symmetric])
  have x: "x = y * 2 powi (- s)"
    unfolding y_def using inv by (simp add: mult.assoc)
  have "round_double x - x = (of_int (round_half_even y) - y) * 2 powi (- s)"
    using x rd by (simp add: algebra_simps)
  then have "\<bar>round_double x - x\<bar> = \<bar>of_int (round_half_even y) - y\<bar> * 2 powi (- s)"
    using two_powi_pos [of "- s"] by (simp add: abs_mult)
  also have "\<dots> \<le> 1 / 2 * 2 powi (- s)"
    using round_half_even_error [of y] two_powi_pos [of "- s"]
    by (simp only: mult_le_cancel_right_pos)
  also have "\<dots> = 2 powi e / 2 ^ 53"
  proof -
    have a: "(2::rat) powi (e + (- 52)) = 2 powi e * 2 powi (- 52)"
      by (intro power_int_add) simp
    have b: "- s = e + (- 52)" by (simp add: s_def)
    have c: "(2::rat) powi (- 52) = 1 / 2 ^ 52" by (simp add: power_int_def field_simps)
    have "(2::rat) powi (- s) = 2 powi e * (1 / 2 ^ 52)" unfolding b a c ..
    then show ?thesis by simp
  qed
  also have "\<dots> \<le> \<bar>x\<bar> / 2 ^ 53" using low by (simp add: divide_right_mono)
  finally show ?thesis .
qed










subsection \<open>Pacing\<close>

lemma pace_slept:
  assumes "\<forall>d\<in>set (slept p). 0 < d"
  shows "\<forall>d\<in>set (slept (pace w paced p)). 0 < d"
  using assms by (simp add: pace_def Let_def)

lemma send_slept: "slept (snd (send w m p)) = slept p"
  by (simp add: send_def)

lemma collect_loop_slept:
  assumes "\<forall>d\<in>set (slept p). 0 < d"
  shows "\<forall>d\<in>set (slept (snd (collect_loop n w paced p))). 0 < d"
  using assms
proof (induction n arbitrary: p)
  case 0
  then show ?case by simp
next
  case (Suc n)
  show ?case
  proof (cases "closed p")
    case True
    with Suc.prems show ?thesis by simp
  next
    case False
    obtain r c where rd: "capture_read w (p_capture p) = (r, c)"
      by (cases "capture_read w (p_capture p)")
    obtain e p1 where sd: "send w r (p\<lparr>p_capture := c\<rparr>) = (e, p1)"
      by (cases "send w r (p\<lparr>p_capture := c\<rparr>)")
    have s1: "slept p1 = slept p"
      using send_slept [of w r "p\<lparr>p_capture := c\<rparr>"] sd by simp
    show ?thesis
    proof (cases "r \<noteq> None \<and> e = None")
      case True
      then obtain f where r: "r = Some f" by auto
      have "\<forall>d\<in>set (slept (pace w paced p1)). 0 < d"
        using Suc.prems s1 by (intro pace_slept) simp
      from Suc.IH [OF this] show ?thesis
        using False rd sd r True by simp
    next
      case nt: False
      then show ?thesis
        using False rd sd s1 Suc.prems by (cases r; cases e) simp_all
    qed
  qed
qed

lemma collect_frames_slept: "\<forall>d\<in>set (slept (snd (collect_frames n w self))). 0 < d"
proof -
  have "\<forall>d\<in>set (slept (snd (collect_loop n w (use_fps_delay self) (start_producer w self)))). 0 < d"
    by (rule collect_loop_slept) (simp add: start_producer_fields)
  then show ?thesis
    by (simp add: collect_frames_def split_beta split: outcome.splits)
qed

lemma pace_sleep_future:
  assumes "slept (pace w True p) \<noteq> slept p"
  shows "clock w (ticks p) < next_frame_time (pace w True p)"
proof -
  define nx where "nx = float_add (next_frame_time p) (duration_per_frame p)"
  have n: "next_frame_time (pace w True p) = nx" by (simp add: pace_def Let_def nx_def)
  have "0 < float_sub nx (clock w (ticks p))"
    using assms by (simp add: pace_def Let_def nx_def split: if_splits)
  then have "\<not> nx - clock w (ticks p) \<le> 0"
    using round_double_nonpos [of "nx - clock w (ticks p)"] by (auto simp add: float_sub_def)
  then show ?thesis using n by simp
qed

lemma pace_deadline:
  "next_frame_time (pace w True p) = round_double (next_frame_time p + duration_per_frame p)"
  "duration_per_frame (pace w True p) = duration_per_frame p"
  "duration_per_frame (pace w paced p) = duration_per_frame p"
  by (simp_all add: pace_def Let_def float_add_def)

lemma collect_loop_deadline:
  assumes "\<not> closed p"
    and "\<forall>i<k. media w (cap_source (p_capture p)) (cap_pos (p_capture p) + int i) \<noteq> None"
    and "\<forall>i<k. \<not> send_fails w (sends p + i)"
  shows "next_frame_time (snd (collect_loop k w True p)) =
     ((\<lambda>t. round_double (t + duration_per_frame p)) ^^ k) (next_frame_time p)"
  using assms
proof (induction k arbitrary: p)
  case 0
  then show ?case by simp
next
  case (Suc k)
  from Suc.prems(2) obtain f
    where f: "media w (cap_source (p_capture p)) (cap_pos (p_capture p)) = Some f"
    by fastforce
  from Suc.prems(3) have ok: "\<not> send_fails w (sends p)" by fastforce
  define p0 where "p0 =
      p\<lparr>p_capture := (p_capture p)\<lparr>cap_pos := cap_pos (p_capture p) + 1,
                                     reads := reads (p_capture p) + 1\<rparr>,
         sends := sends p + 1, sent := sent p @ [Some f]\<rparr>"
  define p1 where "p1 = pace w True p0"
  have step: "collect_loop (Suc k) w True p = collect_loop k w True p1"
    unfolding p1_def p0_def by (rule collect_loop_step [OF Suc.prems(1) f ok])
  have p1: "\<not> closed p1" "cap_source (p_capture p1) = cap_source (p_capture p)"
    "cap_pos (p_capture p1) = cap_pos (p_capture p) + 1" "sends p1 = sends p + 1"
    using Suc.prems(1) by (simp_all add: p1_def p0_def pace_fixed)
  have d1: "duration_per_frame p1 = duration_per_frame p"
    and n1: "next_frame_time p1 = round_double (next_frame_time p + duration_per_frame p)"
    by (simp_all add: p1_def pace_deadline p0_def)
  have m: "\<forall>i<k. media w (cap_source (p_capture p1)) (cap_pos (p_capture p1) + int i) \<noteq> None"
  proof (intro allI impI)
    fix i assume "i < k"
    then have "Suc i < Suc k" by simp
    with Suc.prems(2)
    have "media w (cap_source (p_capture p)) (cap_pos (p_capture p) + int (Suc i)) \<noteq> None"
      by blast
    then show "media w (cap_source (p_capture p1)) (cap_pos (p_capture p1) + int i) \<noteq> None"
      by (simp add: p1 add.assoc)
  qed
  have s: "\<forall>i<k. \<not> send_fails w (sends p1 + i)"
  proof (intro allI impI)
    fix i assume "i < k"
    then have "Suc i < Suc k" by simp
    with Suc.prems(3) have "\<not> send_fails w (sends p + Suc i)" by blast
    then show "\<not> send_fails w (sends p1 + i)" by (simp add: p1)
  qed
  have "((\<lambda>t. round_double (t + duration_per_frame p)) ^^ Suc k) (next_frame_time p) =
      ((\<lambda>t. round_double (t + duration_per_frame p)) ^^ k)
        (round_double (next_frame_time p + duration_per_frame p))"
    by (simp only: funpow_Suc_right o_apply)
  with Suc.IH [OF p1(1) m s] show ?case
    unfolding step d1 n1 by simp
qed

text \<open>
  C6. With pacing, the producer enters the loop with \<open>duration_per_frame\<close> equal to
  the double nearest to \<open>1 / fps\<close> (within \<open>2 ^ -53\<close> of it), where \<open>fps\<close> is the rate
  the backend reports, or \<open>1\<close> when it reports \<open>0\<close>; then the interval is \<open>1\<close>. Each
  iteration replaces \<open>next_frame_time\<close> by the double nearest to
  \<open>next_frame_time + duration_per_frame\<close>, whatever the clock reads, and leaves
  \<open>duration_per_frame\<close> as it is; so after \<open>k\<close> iterations the deadline is the
  starting deadline with the interval added \<open>k\<close> times. An iteration sleeps only if
  the new deadline is later than the clock reading, and every duration the producer
  ever passes to \<open>time.sleep\<close> is positive, however long the loop is followed.
\<close>

theorem pacing:
  "(use_fps_delay self \<longrightarrow>
      duration_per_frame (start_producer w self) =
        round_double (1 / (if nominal_fps w (filename_or_index self) = 0 then 1
                           else nominal_fps w (filename_or_index self)))
      \<and> \<bar>duration_per_frame (start_producer w self)
           - 1 / (if nominal_fps w (filename_or_index self) = 0 then 1
                  else nominal_fps w (filename_or_index self))\<bar>
          \<le> \<bar>1 / (if nominal_fps w (filename_or_index self) = 0 then 1
                    else nominal_fps w (filename_or_index self))\<bar> / 2 ^ 53
      \<and> (nominal_fps w (filename_or_index self) = 0 \<longrightarrow>
           duration_per_frame (start_producer w self) = 1))
   \<and> next_frame_time (pace w True p) = round_double (next_frame_time p + duration_per_frame p)
   \<and> \<bar>next_frame_time (pace w True p) - (next_frame_time p + duration_per_frame p)\<bar>
        \<le> \<bar>next_frame_time p + duration_per_frame p\<bar> / 2 ^ 53
   \<and> duration_per_frame (pace w True p) = duration_per_frame p
   \<and> (slept (pace w True p) \<noteq> slept p \<longrightarrow>
        clock w (ticks p) < next_frame_time (pace w True p))
   \<and> (\<not> closed p
        \<and> (\<forall>i<k. media w (cap_source (p_capture p)) (cap_pos (p_capture p) + int i) \<noteq> None)
        \<and> (\<forall>i<k. \<not> send_fails w (sends p + i)) \<longrightarrow>
        next_frame_time (snd (collect_loop k w True p)) =
          ((\<lambda>t. round_double (t + duration_per_frame p)) ^^ k) (next_frame_time p))
   \<and> (\<forall>d\<in>set (slept (snd (collect_frames n w self))). 0 < d)"
proof -
  let ?fps = "if nominal_fps w (filename_or_index self) = 0 then 1
              else nominal_fps w (filename_or_index self)"
  have a: "duration_per_frame (start_producer w self) = round_double (1 / ?fps)"
    if "use_fps_delay self"
    using that by (simp add: start_producer_def Let_def)
  have a': "\<bar>duration_per_frame (start_producer w self) - 1 / ?fps\<bar> \<le> \<bar>1 / ?fps\<bar> / 2 ^ 53"
    if "use_fps_delay self"
    unfolding a [OF that] by (rule round_double_error)
  have b: "duration_per_frame (start_producer w self) = 1"
    if "use_fps_delay self" "nominal_fps w (filename_or_index self) = 0"
    using a [OF that(1)] that(2) by (simp add: round_double_one)
  have c: "next_frame_time (pace w True p) = round_double (next_frame_time p + duration_per_frame p)"
    "duration_per_frame (pace w True p) = duration_per_frame p"
    by (rule pace_deadline)+
  have c': "\<bar>next_frame_time (pace w True p) - (next_frame_time p + duration_per_frame p)\<bar>
        \<le> \<bar>next_frame_time p + duration_per_frame p\<bar> / 2 ^ 53"
    unfolding c(1) by (rule round_double_error)
  have d: "next_frame_time (snd (collect_loop k w True p)) =
          ((\<lambda>t. round_double (t + duration_per_frame p)) ^^ k) (next_frame_time p)"
    if "\<not> closed p
        \<and> (\<forall>i<k. media w (cap_source (p_capture p)) (cap_pos (p_capture p) + int i) \<noteq> None)
        \<and> (\<forall>i<k. \<not> send_fails w (sends p + i))"
    using that by (intro collect_loop_deadline) simp_all
  from a a' b c c' d pace_sleep_future [of w p] collect_frames_slept [of n w self]
  show ?thesis by blast
qed

text \<open>
  The backend reports no rate, the first clock reading is 10 and each later one is a
  quarter of a second on. After two iterations the deadline is 12, the first reading
  plus twice the interval, and not the current reading plus the interval.
\<close>

theorem pacing_witness:
  "use_fps_delay demo_video
   \<and> nominal_fps (demo_world\<lparr>nominal_fps := (\<lambda>s. 0), clock := (\<lambda>k. 10 + of_nat k / 4)\<rparr>)
        (filename_or_index demo_video) = 0
   \<and> duration_per_frame (start_producer
        (demo_world\<lparr>nominal_fps := (\<lambda>s. 0), clock := (\<lambda>k. 10 + of_nat k / 4)\<rparr>) demo_video) = 1
   \<and> next_frame_time (start_producer
        (demo_world\<lparr>nominal_fps := (\<lambda>s. 0), clock := (\<lambda>k. 10 + of_nat k / 4)\<rparr>) demo_video) = 10
   \<and> next_frame_time (snd (collect_loop 2
        (demo_world\<lparr>nominal_fps := (\<lambda>s. 0), clock := (\<lambda>k. 10 + of_nat k / 4)\<rparr>) True
        (start_producer
          (demo_world\<lparr>nominal_fps := (\<lambda>s. 0), clock := (\<lambda>k. 10 + of_nat k / 4)\<rparr>)
          demo_video))) = 12
   \<and> clock (demo_world\<lparr>nominal_fps := (\<lambda>s. 0), clock := (\<lambda>k. 10 + of_nat k / 4)\<rparr>) 2 + 1
        = 23 / 2
   \<and> slept (snd (collect_frames 1
        (demo_world\<lparr>nominal_fps := (\<lambda>s. 0), clock := (\<lambda>k. 10 + of_nat k / 4)\<rparr>) demo_video))
        = [3 / 4]
   \<and> (0 :: rat) < 3 / 4"
proof -
  let ?w = "demo_world\<lparr>nominal_fps := (\<lambda>s. 0), clock := (\<lambda>k. 10 + of_nat k / 4)\<rparr>"
  let ?p = "start_producer ?w demo_video"
  have u: "use_fps_delay demo_video" by (simp add: demo_video_def)
  have z: "nominal_fps ?w (filename_or_index demo_video) = 0" by simp
  have nc: "\<not> closed ?p" by (simp add: start_producer_fields)
  have md: "\<forall>i<2. media ?w (cap_source (p_capture ?p)) (cap_pos (p_capture ?p) + int i) \<noteq> None"
    by (simp add: start_producer_fields create_capture_def demo_video_def demo_world_def)
  have sd: "\<forall>i<2. \<not> send_fails ?w (sends ?p + i)"
    by (simp add: demo_world_def)
  have n0: "next_frame_time ?p = 10"
    by (simp add: start_producer_def Let_def demo_video_def)
  have r11: "round_double 11 = 11" and r12: "round_double 12 = 12" by code_simp+
  have sl: "slept (snd (collect_frames 1 ?w demo_video)) = [3 / 4]" by code_simp
  have ck: "clock ?w 2 + 1 = 23 / 2" by simp
  note t = pacing [of demo_video ?w ?p 2 1]
  from t u z have d1: "duration_per_frame ?p = 1" by blast
  from t nc md sd
  have "next_frame_time (snd (collect_loop 2 ?w True ?p)) =
      ((\<lambda>t. round_double (t + duration_per_frame ?p)) ^^ 2) (next_frame_time ?p)"
    by blast
  then have n2: "next_frame_time (snd (collect_loop 2 ?w True ?p)) = 12"
    unfolding d1 n0 by (simp add: numeral_2_eq_2 r11 r12 del: collect_loop.simps)
  have ps: "(0 :: rat) < 3 / 4" by simp
  from u z d1 n0 n2 ck sl ps show ?thesis by blast
qed

subsection \<open>A broken pipe\<close>






section \<open>Properties of the rendering\<close>

lemma of_int_round_pos: "0 < n \<Longrightarrow> 0 < round_double (of_int n)"
  by (rule round_double_pos) simp

lemma ceiling_pos_ge_one: "0 < (x::rat) \<Longrightarrow> 1 \<le> \<lceil>x\<rceil>"
  by (simp add: less_ceiling_iff int_one_le_iff_zero_less)






lemma get_optimal_size_ge_one:
  assumes c: "container self = Some c" and f: "frame self = Some f"
    and w: "0 < winfo_width c" and h: "0 < winfo_height c"
    and r: "0 < rows f" and k: "0 < cols f"
  shows "\<exists>x y. get_optimal_size self = Inr (x, y) \<and> 1 \<le> x \<and> 1 \<le> y"
proof -
  define a_f where "a_f = round_double (of_nat (cols f) / of_nat (rows f))"
  define a_t where "a_t = round_double (of_int (winfo_width c) / of_int (winfo_height c))"
  have af: "0 < a_f" unfolding a_f_def using r k by (intro round_double_pos) simp
  have m: "0 < int_mul_float (winfo_height c) a_f"
    unfolding int_mul_float_def using af of_int_round_pos [OF h]
    by (intro round_double_pos) simp
  have d: "0 < round_double (round_double (of_int (winfo_width c)) / a_f)"
    using af of_int_round_pos [OF w] by (intro round_double_pos) simp
  from af have nz: "a_f \<noteq> 0" by simp
  show ?thesis
    using c f w h r nz ceiling_pos_ge_one [OF m] ceiling_pos_ge_one [OF d]
    by (simp add: get_optimal_size_def int_truediv_def int_div_float_def Let_def
        a_f_def [symmetric] a_t_def [symmetric])
qed

text \<open>
  C5, as stated, fails: a label of height \<open>0\<close> makes \<open>max_width / max_height\<close> raise
  \<open>ZeroDivisionError\<close>, and nothing clamps the result: for a label of width \<open>0\<close> the
  size is \<open>(0, 0)\<close>.
\<close>

theorem optimal_size_clamped_counterexample:
  "get_optimal_size
     (demo_video\<lparr>frame := Some (Frame 3 4 0),
        container := Some (demo_label\<lparr>winfo_width := 640, winfo_height := 0\<rparr>)\<rparr>)
     = Inl ZeroDivisionError
   \<and> get_optimal_size
     (demo_video\<lparr>frame := Some (Frame 3 4 0),
        container := Some (demo_label\<lparr>winfo_width := 0, winfo_height := 480\<rparr>)\<rparr>)
     = Inr (0, 0)"
  by code_simp

text \<open>
  C5, amended. For a frame with at least one row and one column and a label of
  positive width and height, so also of width or height \<open>1\<close>, \<open>_get_optimal_size\<close>
  returns a size, and both components are at least \<open>1\<close>.
\<close>

theorem optimal_size_positive:
  assumes c: "container self = Some c" and f: "frame self = Some f"
    and w: "0 < winfo_width c" and h: "0 < winfo_height c"
    and r: "0 < rows f" and k: "0 < cols f"
  shows "\<exists>x y. get_optimal_size self = Inr (x, y) \<and> 1 \<le> x \<and> 1 \<le> y"
  using c f w h r k by (rule get_optimal_size_ge_one)

theorem optimal_size_positive_witness:
  "container (demo_video\<lparr>frame := Some (Frame 5 7 0)\<rparr>) = Some demo_label
   \<and> frame (demo_video\<lparr>frame := Some (Frame 5 7 0)\<rparr>) = Some (Frame 5 7 0)
   \<and> 0 < winfo_width demo_label \<and> 0 < winfo_height demo_label
   \<and> 0 < rows (Frame 5 7 0) \<and> 0 < cols (Frame 5 7 0)
   \<and> (\<exists>x y. get_optimal_size (demo_video\<lparr>frame := Some (Frame 5 7 0)\<rparr>) = Inr (x, y)
         \<and> 1 \<le> x \<and> 1 \<le> y)"
  using optimal_size_positive [of "demo_video\<lparr>frame := Some (Frame 5 7 0)\<rparr>" demo_label "Frame 5 7 0"]
  by (simp add: demo_video_def demo_label_def)

section \<open>Properties of the constructor\<close>

lemma collect_first_frame_fields:
  "frame_number (fst (collect_first_frame w self)) = frame_number self"
  "frame_collector (fst (collect_first_frame w self)) = frame_collector self"
  "frame_receiver (fst (collect_first_frame w self)) = frame_receiver self"
  "container (fst (collect_first_frame w self)) = container self"
  "cap_source (snd (collect_first_frame w self)) = filename_or_index self"
  "reads (snd (collect_first_frame w self)) = 1"
  "releases (snd (collect_first_frame w self)) = 1"
  by (simp_all add: collect_first_frame_def capture_read_def capture_release_def
      create_capture_def set_image_dirty_def split: option.splits)

lemma collect_first_frame_frame:
  "frame (fst (collect_first_frame w self)) =
     (case media w (filename_or_index self)
             (if 0 < frame_number self then frame_number self else 0) of
        None \<Rightarrow> frame self | Some f \<Rightarrow> Some f)"
  "image_needs_update (fst (collect_first_frame w self)) =
     (image_needs_update self \<or>
      media w (filename_or_index self)
        (if 0 < frame_number self then frame_number self else 0) \<noteq> None)"
  by (simp_all add: collect_first_frame_def capture_read_def capture_release_def
      create_capture_def set_image_dirty_def split: option.splits)

lemma update_renders:
  assumes q: "frame_receiver self = Some []" and f: "frame self = Some f"
    and d: "image_needs_update self" and c: "container self = Some c"
    and w: "0 < winfo_width c" and h: "0 < winfo_height c"
    and r: "0 < rows f" and k: "0 < cols f"
  shows "fst (update self) = Inr True
    \<and> (\<exists>x y. 1 \<le> x \<and> 1 \<le> y
          \<and> shown (snd (update self)) = Some (PhotoImage f (flipped self) (x, y)))"
proof -
  define s2 where "s2 = self\<lparr>frame_receiver := Some [], image_needs_update := False\<rparr>"
  have "container s2 = Some c" "frame s2 = Some f" using c f by (simp_all add: s2_def)
  from get_optimal_size_ge_one [OF this w h r k]
  obtain x y where sz: "get_optimal_size s2 = Inr (x, y)" and x: "1 \<le> x" and y: "1 \<le> y"
    by blast
  have "fst (update self) = Inr True
    \<and> shown (snd (update self)) = Some (PhotoImage f (flipped self) (x, y))"
    using q f d c sz x y
    by (simp add: update_def update_image_def Let_def cv2_resize_def configure_image_def
        shown_def s2_def)
  with x y show ?thesis by blast
qed

lemma init_main_container:
  assumes "arg_container a = Some c" and "init True w a = Inr (self, cap)"
  shows "container self = Some c"
  using assms
  by (auto simp add: init_def Let_def split_beta collect_first_frame_def capture_read_def
      set_image_dirty_def split: option.splits source.splits)

lemma init_main_fields:
  assumes "arg_container a = Some c" and "init True w a = Inr (self, cap)"
  shows "frame_receiver self = Some []" and "flipped self = arg_flipped a"
    and "frame_number self = arg_frame_number a" and "frame_collector self = None"
  using assms
  by (auto simp add: init_def Let_def split_beta collect_first_frame_def capture_read_def
      set_image_dirty_def split: option.splits source.splits)

text \<open>
  C10. In the main process, with a container: for a file name the constructor creates
  a capture of that file, reads it once and releases it once; the frame it read, if
  any, is stored and marks the image for update exactly then; \<open>frame_number\<close> is the
  one passed in and no producer is started. With no call of \<open>play\<close>, the next
  \<open>update\<close> then returns \<open>True\<close>, leaves \<open>frame_number\<close> as it is and makes the
  label show an image of that frame, of at least one pixel each way, provided the
  frame and the label have positive width and height. For a device index the
  constructor opens no capture and stores no frame.
\<close>

theorem init_reads_first_frame_of_file:
  assumes "arg_container a = Some c"
  shows "(\<forall>s. arg_filename_or_index a = Filename s \<longrightarrow>
      (\<exists>self cap. init True w a = Inr (self, Some cap)
         \<and> cap_source cap = Filename s \<and> reads cap = 1 \<and> releases cap = 1
         \<and> frame self =
             media w (Filename s) (if 0 < arg_frame_number a then arg_frame_number a else 0)
         \<and> image_needs_update self = (frame self \<noteq> None)
         \<and> frame_number self = arg_frame_number a
         \<and> frame_collector self = None
         \<and> (\<forall>f. frame self = Some f \<longrightarrow> 0 < rows f \<longrightarrow> 0 < cols f \<longrightarrow>
               0 < winfo_width c \<longrightarrow> 0 < winfo_height c \<longrightarrow>
               fst (update self) = Inr True
               \<and> frame_number (snd (update self)) = arg_frame_number a
               \<and> (\<exists>x y. 1 \<le> x \<and> 1 \<le> y
                     \<and> shown (snd (update self)) = Some (PhotoImage f (arg_flipped a) (x, y))))))
    \<and> (\<forall>i. arg_filename_or_index a = Index i \<longrightarrow>
      (\<exists>self. init True w a = Inr (self, None)
         \<and> frame self = None \<and> \<not> image_needs_update self
         \<and> frame_number self = arg_frame_number a
         \<and> frame_collector self = None))"
proof (intro conjI allI impI)
  fix s assume s: "arg_filename_or_index a = Filename s"
  obtain self cap where i: "init True w a = Inr (self, Some cap)"
    and fs: "self = fst (collect_first_frame w
        \<lparr>container = arg_container a, filename_or_index = arg_filename_or_index a,
         api_preference = arg_api_preference a, flipped = arg_flipped a,
         width = arg_width a, height = arg_height a,
         use_fps_delay = arg_use_fps_delay a, frame_number = arg_frame_number a,
         frame_collector = None, frame = None, image = None,
         image_needs_update = False, configure_bound = True, frame_receiver = Some []\<rparr>)"
    and cs: "cap = snd (collect_first_frame w
        \<lparr>container = arg_container a, filename_or_index = arg_filename_or_index a,
         api_preference = arg_api_preference a, flipped = arg_flipped a,
         width = arg_width a, height = arg_height a,
         use_fps_delay = arg_use_fps_delay a, frame_number = arg_frame_number a,
         frame_collector = None, frame = None, image = None,
         image_needs_update = False, configure_bound = True, frame_receiver = Some []\<rparr>)"
    using assms s by (simp add: init_def Let_def split_beta)
  have c: "cap_source cap = Filename s" "reads cap = 1" "releases cap = 1"
    by (simp_all add: cs collect_first_frame_fields s)
  have f: "frame self =
      media w (Filename s) (if 0 < arg_frame_number a then arg_frame_number a else 0)"
    by (simp add: fs collect_first_frame_frame s split: option.splits)
  have d: "image_needs_update self = (frame self \<noteq> None)"
    by (simp add: fs collect_first_frame_frame s split: option.splits)
  note m = init_main_fields [OF assms i]
  note mc = init_main_container [OF assms i]
  have u: "fst (update self) = Inr True
      \<and> frame_number (snd (update self)) = arg_frame_number a
      \<and> (\<exists>x y. 1 \<le> x \<and> 1 \<le> y
            \<and> shown (snd (update self)) = Some (PhotoImage f (arg_flipped a) (x, y)))"
    if "frame self = Some f" "0 < rows f" "0 < cols f" "0 < winfo_width c" "0 < winfo_height c"
    for f
  proof -
    from that(1) d have "image_needs_update self" by simp
    from update_renders [OF m(1) that(1) this mc that(4,5,2,3)] m(2)
    have "fst (update self) = Inr True
      \<and> (\<exists>x y. 1 \<le> x \<and> 1 \<le> y
            \<and> shown (snd (update self)) = Some (PhotoImage f (arg_flipped a) (x, y)))"
      by simp
    moreover have "frame_number (snd (update self)) = arg_frame_number a"
      using update_state(1) [OF m(1)] m(3) by simp
    ultimately show ?thesis by blast
  qed
  from i c f d m(3,4) u
  show "\<exists>self cap. init True w a = Inr (self, Some cap)
         \<and> cap_source cap = Filename s \<and> reads cap = 1 \<and> releases cap = 1
         \<and> frame self =
             media w (Filename s) (if 0 < arg_frame_number a then arg_frame_number a else 0)
         \<and> image_needs_update self = (frame self \<noteq> None)
         \<and> frame_number self = arg_frame_number a
         \<and> frame_collector self = None
         \<and> (\<forall>f. frame self = Some f \<longrightarrow> 0 < rows f \<longrightarrow> 0 < cols f \<longrightarrow>
               0 < winfo_width c \<longrightarrow> 0 < winfo_height c \<longrightarrow>
               fst (update self) = Inr True
               \<and> frame_number (snd (update self)) = arg_frame_number a
               \<and> (\<exists>x y. 1 \<le> x \<and> 1 \<le> y
                     \<and> shown (snd (update self)) = Some (PhotoImage f (arg_flipped a) (x, y))))"
    by blast
next
  fix i assume "arg_filename_or_index a = Index i"
  then show "\<exists>self. init True w a = Inr (self, None)
         \<and> frame self = None \<and> \<not> image_needs_update self
         \<and> frame_number self = arg_frame_number a
         \<and> frame_collector self = None"
    using assms by (simp add: init_def Let_def)
qed

theorem init_reads_first_frame_of_file_witness:
  "arg_container demo_args = Some demo_label
   \<and> arg_filename_or_index demo_args = Filename ''video.avi''
   \<and> 0 < rows (Frame 3 4 0) \<and> 0 < cols (Frame 3 4 0)
   \<and> 0 < winfo_width demo_label \<and> 0 < winfo_height demo_label
   \<and> (\<exists>self cap. init True demo_world demo_args = Inr (self, Some cap)
         \<and> reads cap = 1 \<and> releases cap = 1
         \<and> frame self = Some (Frame 3 4 0)
         \<and> image_needs_update self
         \<and> frame_number self = 0
         \<and> fst (update self) = Inr True
         \<and> frame_number (snd (update self)) = 0
         \<and> (\<exists>x y. 1 \<le> x \<and> 1 \<le> y
               \<and> shown (snd (update self)) = Some (PhotoImage (Frame 3 4 0) False (x, y))))
   \<and> shown (snd (update (fst (projr (init True demo_world demo_args)))))
        = Some (PhotoImage (Frame 3 4 0) False (640, 480))
   \<and> arg_container (demo_args\<lparr>arg_filename_or_index := Index 0\<rparr>) = Some demo_label
   \<and> arg_filename_or_index (demo_args\<lparr>arg_filename_or_index := Index 0\<rparr>) = Index 0
   \<and> (\<exists>self. init True demo_world (demo_args\<lparr>arg_filename_or_index := Index 0\<rparr>)
                 = Inr (self, None)
         \<and> frame self = None \<and> \<not> image_needs_update self)"
proof -
  have h1: "arg_container demo_args = Some demo_label"
    and h2: "arg_filename_or_index demo_args = Filename ''video.avi''"
    and h3: "arg_container (demo_args\<lparr>arg_filename_or_index := Index 0\<rparr>) = Some demo_label"
    and h4: "arg_filename_or_index (demo_args\<lparr>arg_filename_or_index := Index 0\<rparr>) = Index 0"
    and fl: "arg_flipped demo_args = False"
    by (simp_all add: demo_args_def)
  have m: "media demo_world (Filename ''video.avi'')
      (if 0 < arg_frame_number demo_args then arg_frame_number demo_args else 0)
        = Some (Frame 3 4 0)"
    and n: "arg_frame_number demo_args = 0"
    by (simp_all add: demo_world_def demo_args_def)
  have p: "0 < rows (Frame 3 4 0)" "0 < cols (Frame 3 4 0)"
    "0 < winfo_width demo_label" "0 < winfo_height demo_label"
    by (simp_all add: demo_label_def)
  have v: "shown (snd (update (fst (projr (init True demo_world demo_args)))))
        = Some (PhotoImage (Frame 3 4 0) False (640, 480))"
    by code_simp
  from init_reads_first_frame_of_file [OF h1, of demo_world] h2
  obtain self cap where i: "init True demo_world demo_args = Inr (self, Some cap)"
    and c: "reads cap = 1" "releases cap = 1"
    and f: "frame self = media demo_world (Filename ''video.avi'')
      (if 0 < arg_frame_number demo_args then arg_frame_number demo_args else 0)"
    and d: "image_needs_update self = (frame self \<noteq> None)"
    and fn: "frame_number self = arg_frame_number demo_args"
    and u: "\<forall>f. frame self = Some f \<longrightarrow> 0 < rows f \<longrightarrow> 0 < cols f \<longrightarrow>
               0 < winfo_width demo_label \<longrightarrow> 0 < winfo_height demo_label \<longrightarrow>
               fst (update self) = Inr True
               \<and> frame_number (snd (update self)) = arg_frame_number demo_args
               \<and> (\<exists>x y. 1 \<le> x \<and> 1 \<le> y
                     \<and> shown (snd (update self))
                         = Some (PhotoImage f (arg_flipped demo_args) (x, y)))"
    by blast
  have f': "frame self = Some (Frame 3 4 0)" using f m by simp
  then have d': "image_needs_update self" using d by simp
  from u f' p have u': "fst (update self) = Inr True
      \<and> frame_number (snd (update self)) = 0
      \<and> (\<exists>x y. 1 \<le> x \<and> 1 \<le> y
            \<and> shown (snd (update self)) = Some (PhotoImage (Frame 3 4 0) False (x, y)))"
    unfolding fl n by blast
  have a: "\<exists>self cap. init True demo_world demo_args = Inr (self, Some cap)
         \<and> reads cap = 1 \<and> releases cap = 1
         \<and> frame self = Some (Frame 3 4 0)
         \<and> image_needs_update self
         \<and> frame_number self = 0
         \<and> fst (update self) = Inr True
         \<and> frame_number (snd (update self)) = 0
         \<and> (\<exists>x y. 1 \<le> x \<and> 1 \<le> y
               \<and> shown (snd (update self)) = Some (PhotoImage (Frame 3 4 0) False (x, y)))"
    using i c f' d' fn n u' by auto
  from init_reads_first_frame_of_file [OF h3, of demo_world] h4
  have b: "\<exists>self. init True demo_world (demo_args\<lparr>arg_filename_or_index := Index 0\<rparr>)
                 = Inr (self, None)
         \<and> frame self = None \<and> \<not> image_needs_update self"
    by blast
  from h1 h2 p a v h3 h4 b show ?thesis by blast
qed

end
